theory Spec2Isabelle
  imports Complex_Main
begin

section \<open>LGE climate platform (climate.py): data model\<close>

text \<open>
  The standard HVAC modes of the host platform (\<^verbatim>\<open>HVACMode\<close>, a string enumeration of the
  home-automation library) and the string each member formats to in an f-string.
\<close>

datatype HVACMode = OFF | HEAT | COOL | HEAT_COOL | AUTO | DRY | FAN_ONLY

fun HVACMode_value :: "HVACMode \<Rightarrow> string" where
  "HVACMode_value OFF = ''off''"
| "HVACMode_value HEAT = ''heat''"
| "HVACMode_value COOL = ''cool''"
| "HVACMode_value HEAT_COOL = ''heat_cool''"
| "HVACMode_value AUTO = ''auto''"
| "HVACMode_value DRY = ''dry''"
| "HVACMode_value FAN_ONLY = ''fan_only''"

text \<open>Exceptions of the source, as values.\<close>

datatype error =
    ValueError string
  | KeyError string
  | NotImplementedError
  | TypeError
  | OverflowError
  | DeviceError string

text \<open>Module constants.\<close>

definition HVAC_MODE_NONE :: string where
  "HVAC_MODE_NONE = ''--''"

definition PRESET_ECO :: string where
  "PRESET_ECO = ''eco''"

definition PRESET_NONE :: string where
  "PRESET_NONE = ''none''"

text \<open>
  A Python dict is an association list with distinct keys in insertion order.
  \<open>dict_set\<close> is \<^verbatim>\<open>d[k] = v\<close>: an existing key keeps its position and takes the new
  value, a new key goes to the end. \<open>dict_get\<close> is \<^verbatim>\<open>d.get(k)\<close>, \<open>dict_values\<close> is
  \<^verbatim>\<open>list(d.values())\<close>, \<open>dict_has\<close> is \<^verbatim>\<open>k in d\<close>.
\<close>

type_synonym ('k, 'v) dict = "('k \<times> 'v) list"

fun dict_set :: "('k, 'v) dict \<Rightarrow> 'k \<Rightarrow> 'v \<Rightarrow> ('k, 'v) dict" where
  "dict_set [] k v = [(k, v)]"
| "dict_set ((k', v') # d) k v =
     (if k' = k then (k, v) # d else (k', v') # dict_set d k v)"

definition dict_get :: "('k, 'v) dict \<Rightarrow> 'k \<Rightarrow> 'v option" where
  "dict_get d k = map_of d k"

definition dict_values :: "('k, 'v) dict \<Rightarrow> 'v list" where
  "dict_values d = map snd d"

definition dict_has :: "('k, 'v) dict \<Rightarrow> 'k \<Rightarrow> bool" where
  "dict_has d k = (k \<in> set (map fst d))"

text \<open>The comprehension \<^verbatim>\<open>{v: k for k, v in d.items()}\<close>: a later item overwrites.\<close>

fun dict_invert_into :: "('k, 'v) dict \<Rightarrow> ('v, 'k) dict \<Rightarrow> ('v, 'k) dict" where
  "dict_invert_into [] acc = acc"
| "dict_invert_into ((k, v) # d) acc = dict_invert_into d (dict_set acc v k)"

definition dict_invert :: "('k, 'v) dict \<Rightarrow> ('v, 'k) dict" where
  "dict_invert d = dict_invert_into d []"

text \<open>
  The global lookup tables. The keys are the member names of the vendor enumeration
  \<^verbatim>\<open>ACMode\<close> (\<^verbatim>\<open>ACMode.AI.name\<close> and so on), which are the vendor codes the device reports
  in \<^verbatim>\<open>op_modes\<close> and \<^verbatim>\<open>operation_mode\<close>.
\<close>

definition HVAC_MODE_LOOKUP :: "(string, HVACMode) dict" where
  "HVAC_MODE_LOOKUP =
     [(''AI'', AUTO),
      (''HEAT'', HEAT),
      (''DRY'', DRY),
      (''COOL'', COOL),
      (''AIRCLEAN'', FAN_ONLY),
      (''ACO'', HEAT_COOL)]"

record preset_entry =
  preset :: string
  hvac :: HVACMode

definition PRESET_MODE_LOOKUP :: "(string, preset_entry) dict" where
  "PRESET_MODE_LOOKUP =
     [(''ENERGY_SAVING'', \<lparr>preset = PRESET_ECO, hvac = COOL\<rparr>),
      (''ENERGY_SAVER'', \<lparr>preset = PRESET_ECO, hvac = COOL\<rparr>)]"

text \<open>
  The device object: its capability lists (fixed for the session), and the live state
  snapshot \<^verbatim>\<open>self._api.state\<close>, which the adapter only reads.
\<close>

record AirConditionerDevice =
  op_modes :: "string list"
  vertical_swing_modes :: "string list"
  horizontal_swing_modes :: "string list"

record AirConditionerStatus =
  is_on :: bool
  operation_mode :: "string option"
  vertical_swing_mode :: "string option"
  horizontal_swing_mode :: "string option"

text \<open>The command methods of the device that the modelled paths call.\<close>

datatype command =
    Power bool
  | SetOpMode string
  | SetVerticalSwingMode string
  | SetHorizontalSwingMode string

text \<open>
  The air-conditioner adapter. Besides the attributes of the class, the record holds what
  a call leaves behind outside the adapter: \<open>commands\<close> is the log of the device commands
  issued so far, \<open>updated\<close> counts the calls of \<^verbatim>\<open>async_set_updated\<close>, and \<open>faults\<close> is the
  outcome the device layer will give to the coming commands (\<open>True\<close>: the command raises a
  device-layer error; an exhausted list: the command succeeds).
\<close>

record LGEACClimate =
  device :: AirConditionerDevice
  api_state :: AirConditionerStatus
  use_h_mode :: bool
  attr_swing_modes :: "string list option"
  attr_swing_horizontal_modes :: "string list option"
  attr_preset_mode :: "string option"
  hvac_mode_lookup :: "(string, HVACMode) dict option"
  preset_mode_lookup :: "(string, string) dict option"
  commands :: "command list"
  faults :: "bool list"
  updated :: nat

text \<open>Python truthiness of an optional list and of an optional string (a char list).\<close>

fun truthy :: "'a list option \<Rightarrow> bool" where
  "truthy None = False"
| "truthy (Some xs) = (xs \<noteq> [])"

text \<open>\<^verbatim>\<open>xs or None\<close> for a list.\<close>

definition or_None :: "'a list \<Rightarrow> 'a list option" where
  "or_None xs = (if xs \<noteq> [] then Some xs else None)"

text \<open>\<^verbatim>\<open>xs or []\<close> for an optional list.\<close>

definition or_empty :: "'a list option \<Rightarrow> 'a list" where
  "or_empty xs = (case xs of None \<Rightarrow> [] | Some l \<Rightarrow> l)"

section \<open>The air-conditioner adapter\<close>

text \<open>\<^verbatim>\<open>LGEACClimate.__init__\<close>, given the device, its snapshot and the coming faults.\<close>

definition LGEACClimate_init ::
  "AirConditionerDevice \<Rightarrow> AirConditionerStatus \<Rightarrow> bool list \<Rightarrow> LGEACClimate" where
  "LGEACClimate_init dev st fs =
     (let sm = or_None (vertical_swing_modes dev);
          shm = or_None (horizontal_swing_modes dev);
          remap = (\<not> truthy sm \<and> truthy shm)
      in \<lparr>device = dev,
          api_state = st,
          use_h_mode = remap,
          attr_swing_modes = (if remap then shm else sm),
          attr_swing_horizontal_modes = (if remap then None else shm),
          attr_preset_mode = None,
          hvac_mode_lookup = None,
          preset_mode_lookup = None,
          commands = [],
          faults = fs,
          updated = 0\<rparr>)"

text \<open>
  \<^verbatim>\<open>_available_hvac_modes\<close>. \<open>derive_hvac_modes\<close> is what the method computes when nothing
  is memoized: the dict comprehension over the global table, and the sentinel entry when
  the comprehension is empty. The method returns the table and the adapter with the table
  memoized.
\<close>

definition derive_hvac_modes :: "string list \<Rightarrow> (string, HVACMode) dict" where
  "derive_hvac_modes S =
     (let t = filter (\<lambda>(key, mode). key \<in> set S) HVAC_MODE_LOOKUP
      in if t = [] then [(HVAC_MODE_NONE, AUTO)] else t)"

definition available_hvac_modes ::
  "LGEACClimate \<Rightarrow> (string, HVACMode) dict \<times> LGEACClimate" where
  "available_hvac_modes s =
     (case hvac_mode_lookup s of
        Some t \<Rightarrow> (t, s)
      | None \<Rightarrow>
          (let t = derive_hvac_modes (op_modes (device s))
           in (t, s\<lparr>hvac_mode_lookup := Some t\<rparr>)))"

text \<open>
  The loop of \<^verbatim>\<open>_available_preset_modes\<close> over the items of the preset table: \<open>modes\<close> maps
  a preset label to a vendor code.
\<close>

fun preset_loop ::
  "string list \<Rightarrow> HVACMode list \<Rightarrow> (string, preset_entry) dict \<Rightarrow> (string, string) dict
     \<Rightarrow> (string, string) dict" where
  "preset_loop S hvac_modes [] modes = modes"
| "preset_loop S hvac_modes ((key, mode) # items) modes =
     (if key \<notin> set S then preset_loop S hvac_modes items modes
      else if hvac mode \<notin> set hvac_modes then preset_loop S hvac_modes items modes
      else preset_loop S hvac_modes items (dict_set modes (preset mode) key))"

text \<open>\<^verbatim>\<open>_available_preset_modes\<close>: the table, vendor code to preset label, memoized.\<close>

definition available_preset_modes ::
  "LGEACClimate \<Rightarrow> (string, string) dict \<times> LGEACClimate" where
  "available_preset_modes s =
     (case preset_mode_lookup s of
        Some p \<Rightarrow> (p, s)
      | None \<Rightarrow>
          (let (hv, s1) = available_hvac_modes s;
               hvac_modes = dict_values hv;
               modes = preset_loop (op_modes (device s1)) hvac_modes PRESET_MODE_LOOKUP [];
               s2 = (if modes \<noteq> [] then s1\<lparr>attr_preset_mode := Some PRESET_NONE\<rparr> else s1);
               p = dict_invert modes
           in (p, s2\<lparr>preset_mode_lookup := Some p\<rparr>)))"

text \<open>
  The \<^verbatim>\<open>hvac_mode\<close> property. Reading it may change the active preset attribute and fill
  the memoized tables, so it returns the adapter as well.
\<close>

definition reset_preset :: "LGEACClimate \<Rightarrow> LGEACClimate" where
  "reset_preset s =
     (if truthy (attr_preset_mode s) then s\<lparr>attr_preset_mode := Some PRESET_NONE\<rparr> else s)"

definition hvac_mode :: "LGEACClimate \<Rightarrow> (error + HVACMode) \<times> LGEACClimate" where
  "hvac_mode s =
     (case operation_mode (api_state s) of
        None \<Rightarrow> (Inr OFF, reset_preset s)
      | Some op_mode \<Rightarrow>
          if \<not> is_on (api_state s) then (Inr OFF, reset_preset s)
          else
            (let (presets, s1) = available_preset_modes s
             in if dict_has presets op_mode then
                  (let s2 = s1\<lparr>attr_preset_mode := dict_get presets op_mode\<rparr>
                   in case dict_get PRESET_MODE_LOOKUP op_mode of
                        None \<Rightarrow> (Inl (KeyError op_mode), s2)
                      | Some e \<Rightarrow> (Inr (hvac e), s2))
                else
                  (let (modes, s3) = available_hvac_modes (reset_preset s1)
                   in (Inr (case dict_get modes op_mode of Some m \<Rightarrow> m | None \<Rightarrow> AUTO), s3))))"

text \<open>
  A call of a command method of the device: the command is logged, and the device layer
  either completes it or raises.
\<close>

definition device_call :: "command \<Rightarrow> LGEACClimate \<Rightarrow> (error + unit) \<times> LGEACClimate" where
  "device_call c s =
     (case faults s of
        [] \<Rightarrow> (Inr (), s\<lparr>commands := commands s @ [c]\<rparr>)
      | f # fs \<Rightarrow>
          (if f then Inl (DeviceError ''command failed'') else Inr (),
           s\<lparr>commands := commands s @ [c], faults := fs\<rparr>))"

definition async_set_updated :: "LGEACClimate \<Rightarrow> LGEACClimate" where
  "async_set_updated s = s\<lparr>updated := Suc (updated s)\<rparr>"

text \<open>\<^verbatim>\<open>if not self._api.state.is_on: await self._device.power(True)\<close>\<close>

definition power_on_if_off :: "LGEACClimate \<Rightarrow> (error + unit) \<times> LGEACClimate" where
  "power_on_if_off s =
     (if \<not> is_on (api_state s) then device_call (Power True) s else (Inr (), s))"

text \<open>\<^verbatim>\<open>async_set_hvac_mode\<close>\<close>

definition async_set_hvac_mode ::
  "HVACMode \<Rightarrow> LGEACClimate \<Rightarrow> (error + unit) \<times> LGEACClimate" where
  "async_set_hvac_mode m s =
     (if m = OFF then
        (case device_call (Power False) s of
           (Inl e, s1) \<Rightarrow> (Inl e, s1)
         | (Inr _, s1) \<Rightarrow> (Inr (), async_set_updated s1))
      else
        (let (modes, s1) = available_hvac_modes s;
             reverse_lookup = dict_invert modes
         in case dict_get reverse_lookup m of
              None \<Rightarrow> (Inl (ValueError (''Invalid hvac_mode ['' @ HVACMode_value m @ '']'')), s1)
            | Some operation_code \<Rightarrow>
                (case power_on_if_off s1 of
                   (Inl e, s2) \<Rightarrow> (Inl e, s2)
                 | (Inr _, s2) \<Rightarrow>
                     (case (if operation_code \<noteq> HVAC_MODE_NONE
                            then device_call (SetOpMode operation_code) s2
                            else (Inr (), s2)) of
                        (Inl e, s3) \<Rightarrow> (Inl e, s3)
                      | (Inr _, s3) \<Rightarrow> (Inr (), async_set_updated s3)))))"

text \<open>\<^verbatim>\<open>async_set_preset_mode\<close>\<close>

definition async_set_preset_mode ::
  "string \<Rightarrow> LGEACClimate \<Rightarrow> (error + unit) \<times> LGEACClimate" where
  "async_set_preset_mode preset_mode s =
     (let (modes, s1) = available_preset_modes s
      in if modes = [] then (Inl NotImplementedError, s1)
         else
           (let reverse_lookup = dict_invert modes
            in if preset_mode = PRESET_NONE then
                 (if attr_preset_mode s1 \<noteq> Some PRESET_NONE \<and> is_on (api_state s1) then
                    (case attr_preset_mode s1 of
                       None \<Rightarrow> (Inl (KeyError ''None''), s1)
                     | Some curr_preset \<Rightarrow>
                         (case dict_get reverse_lookup curr_preset of
                            None \<Rightarrow> (Inl (KeyError curr_preset), s1)
                          | Some op_mode \<Rightarrow>
                              (case dict_get PRESET_MODE_LOOKUP op_mode of
                                 None \<Rightarrow> (Inl (KeyError op_mode), s1)
                               | Some e \<Rightarrow> async_set_hvac_mode (hvac e) s1)))
                  else (Inr (), s1))
               else
                 (case dict_get reverse_lookup preset_mode of
                    None \<Rightarrow>
                      (Inl (ValueError (''Invalid preset_mode ['' @ preset_mode @ '']'')), s1)
                  | Some operation_code \<Rightarrow>
                      (case power_on_if_off s1 of
                         (Inl e, s2) \<Rightarrow> (Inl e, s2)
                       | (Inr _, s2) \<Rightarrow>
                           (case device_call (SetOpMode operation_code) s2 of
                              (Inl e, s3) \<Rightarrow> (Inl e, s3)
                            | (Inr _, s3) \<Rightarrow> (Inr (), async_set_updated s3))))))"

text \<open>The \<^verbatim>\<open>hvac_modes\<close> and \<^verbatim>\<open>preset_modes\<close> properties.\<close>

definition hvac_modes :: "LGEACClimate \<Rightarrow> HVACMode list \<times> LGEACClimate" where
  "hvac_modes s = (let (modes, s1) = available_hvac_modes s in (OFF # dict_values modes, s1))"

definition preset_modes :: "LGEACClimate \<Rightarrow> string list option \<times> LGEACClimate" where
  "preset_modes s =
     (let (modes, s1) = available_preset_modes s
      in if modes = [] then (None, s1) else (Some (PRESET_NONE # dict_values modes), s1))"

text \<open>
  The swing properties. \<^verbatim>\<open>swing_modes\<close> and \<^verbatim>\<open>swing_horizontal_modes\<close> are the properties
  of the platform's base entity, which return the attributes set by \<^verbatim>\<open>__init__\<close>.
\<close>

definition swing_modes :: "LGEACClimate \<Rightarrow> string list option" where
  "swing_modes s = attr_swing_modes s"

definition swing_horizontal_modes :: "LGEACClimate \<Rightarrow> string list option" where
  "swing_horizontal_modes s = attr_swing_horizontal_modes s"

definition swing_mode :: "LGEACClimate \<Rightarrow> string option" where
  "swing_mode s =
     (if use_h_mode s then horizontal_swing_mode (api_state s)
      else vertical_swing_mode (api_state s))"

definition swing_horizontal_mode :: "LGEACClimate \<Rightarrow> string option" where
  "swing_horizontal_mode s = horizontal_swing_mode (api_state s)"

definition async_set_swing_mode ::
  "string \<Rightarrow> LGEACClimate \<Rightarrow> (error + unit) \<times> LGEACClimate" where
  "async_set_swing_mode mode s =
     (if mode \<notin> set (or_empty (swing_modes s)) then
        (Inl (ValueError (''Invalid swing_mode ['' @ mode @ ''].'')), s)
      else if Some mode \<noteq> swing_mode s then
        (case (if use_h_mode s then device_call (SetHorizontalSwingMode mode) s
               else device_call (SetVerticalSwingMode mode) s) of
           (Inl e, s1) \<Rightarrow> (Inl e, s1)
         | (Inr _, s1) \<Rightarrow> (Inr (), async_set_updated s1))
      else (Inr (), s))"

definition async_set_swing_horizontal_mode ::
  "string \<Rightarrow> LGEACClimate \<Rightarrow> (error + unit) \<times> LGEACClimate" where
  "async_set_swing_horizontal_mode mode s =
     (if mode \<notin> set (or_empty (swing_horizontal_modes s)) then
        (Inl (ValueError (''Invalid horizontal swing_mode ['' @ mode @ ''].'')), s)
      else if Some mode \<noteq> swing_horizontal_mode s then
        (case device_call (SetHorizontalSwingMode mode) s of
           (Inl e, s1) \<Rightarrow> (Inl e, s1)
         | (Inr _, s1) \<Rightarrow> (Inr (), async_set_updated s1))
      else (Inr (), s))"

text \<open>
  The memoized tables of an adapter are consistent with its device: a table that is
  present is the one the method derives from the device's operating modes. It holds after
  \<^verbatim>\<open>__init__\<close> (nothing memoized) and every method keeps it.
\<close>

definition cache_inv :: "LGEACClimate \<Rightarrow> bool" where
  "cache_inv s \<longleftrightarrow>
     (case hvac_mode_lookup s of
        None \<Rightarrow> True
      | Some t \<Rightarrow> t = derive_hvac_modes (op_modes (device s))) \<and>
     (case preset_mode_lookup s of
        None \<Rightarrow> True
      | Some p \<Rightarrow>
          p = dict_invert (preset_loop (op_modes (device s))
                (dict_values (derive_hvac_modes (op_modes (device s)))) PRESET_MODE_LOOKUP []))"

text \<open>
  What \<^verbatim>\<open>__init__\<close> fixes for the lifetime of the adapter: the device and the swing
  attributes. \<open>swing_inv\<close> says that they still are what \<^verbatim>\<open>__init__\<close> made of the device;
  \<open>keeps s s'\<close> says that a step from \<open>s\<close> to \<open>s'\<close> leaves them alone and keeps the
  memoized tables consistent.
\<close>

definition static ::
  "LGEACClimate \<Rightarrow> AirConditionerDevice \<times> bool \<times> string list option \<times> string list option"
  where
  "static s = (device s, use_h_mode s, attr_swing_modes s, attr_swing_horizontal_modes s)"

definition swing_inv :: "LGEACClimate \<Rightarrow> bool" where
  "swing_inv s \<longleftrightarrow> static s = static (LGEACClimate_init (device s) (api_state s) (faults s))"

definition keeps :: "LGEACClimate \<Rightarrow> LGEACClimate \<Rightarrow> bool" where
  "keeps s s' \<longleftrightarrow> static s' = static s \<and> (cache_inv s \<longrightarrow> cache_inv s')"

text \<open>
  The adapter states that \<^verbatim>\<open>__init__\<close> and the modelled methods can produce, with the
  snapshot and the coming device outcomes changing freely in between.
\<close>

inductive reachable :: "LGEACClimate \<Rightarrow> bool" where
  r_init: "reachable (LGEACClimate_init dev st fs)"
| r_poll: "reachable s \<Longrightarrow> reachable (s\<lparr>api_state := st, faults := fs\<rparr>)"
| r_hvac_mode: "reachable s \<Longrightarrow> reachable (snd (hvac_mode s))"
| r_hvac_modes: "reachable s \<Longrightarrow> reachable (snd (hvac_modes s))"
| r_preset_modes: "reachable s \<Longrightarrow> reachable (snd (preset_modes s))"
| r_set_hvac_mode: "reachable s \<Longrightarrow> reachable (snd (async_set_hvac_mode m s))"
| r_set_preset_mode: "reachable s \<Longrightarrow> reachable (snd (async_set_preset_mode p s))"
| r_set_swing_mode: "reachable s \<Longrightarrow> reachable (snd (async_set_swing_mode v s))"
| r_set_swing_horizontal_mode:
    "reachable s \<Longrightarrow> reachable (snd (async_set_swing_horizontal_mode v s))"

section \<open>The refrigerator-compartment adapter\<close>

text \<open>
  The values a temperature accessor can yield (\<^verbatim>\<open>float | str\<close>, or \<^verbatim>\<open>None\<close>). A finite
  float is the real number it denotes; NaN and the two infinities are values of their own.
\<close>

datatype pyvalue = PyNone | PyInt int | PyFloat real | PyNaN | PyInf bool | PyStr string

text \<open>
  The builtin \<^verbatim>\<open>int()\<close>. A float is truncated towards zero; NaN raises ValueError and an
  infinity OverflowError. A string is a decimal literal: optional surrounding whitespace,
  an optional sign, digits with single underscores between them; anything else raises
  ValueError.
\<close>

definition py_trunc :: "real \<Rightarrow> int" where
  "py_trunc x = (if x < 0 then \<lceil>x\<rceil> else \<lfloor>x\<rfloor>)"

definition is_space :: "char \<Rightarrow> bool" where
  "is_space c = (c \<in> set [CHR '' '', CHR 0x09, CHR 0x0A, CHR 0x0B, CHR 0x0C, CHR 0x0D])"

definition strip :: "string \<Rightarrow> string" where
  "strip s = rev (dropWhile is_space (rev (dropWhile is_space s)))"

definition digit_val :: "char \<Rightarrow> nat option" where
  "digit_val c =
     (if (48::nat) \<le> of_char c \<and> of_char c \<le> (57::nat) then Some (of_char c - 48) else None)"

fun digits_value :: "nat \<Rightarrow> string \<Rightarrow> nat option" where
  "digits_value acc [] = Some acc"
| "digits_value acc [c] =
     (case digit_val c of None \<Rightarrow> None | Some v \<Rightarrow> Some (acc * 10 + v))"
| "digits_value acc (c # d # ds) =
     (if c = CHR ''_'' then
        (case digit_val d of None \<Rightarrow> None | Some v \<Rightarrow> digits_value (acc * 10 + v) ds)
      else
        (case digit_val c of None \<Rightarrow> None | Some v \<Rightarrow> digits_value (acc * 10 + v) (d # ds)))"

definition int_of_str :: "string \<Rightarrow> int option" where
  "int_of_str s =
     (let t = strip s;
          neg = (t \<noteq> [] \<and> hd t = CHR ''-'');
          body = (if t \<noteq> [] \<and> (hd t = CHR ''-'' \<or> hd t = CHR ''+'') then tl t else t)
      in case body of
           [] \<Rightarrow> None
         | d # ds \<Rightarrow>
             (case digit_val d of
                None \<Rightarrow> None
              | Some v \<Rightarrow>
                  (case digits_value v ds of
                     None \<Rightarrow> None
                   | Some n \<Rightarrow> Some (if neg then - int n else int n))))"

fun py_int :: "pyvalue \<Rightarrow> error + int" where
  "py_int (PyInt n) = Inr n"
| "py_int (PyFloat x) = Inr (py_trunc x)"
| "py_int PyNaN = Inl (ValueError ''cannot convert float NaN to integer'')"
| "py_int (PyInf b) = Inl OverflowError"
| "py_int (PyStr s) =
     (case int_of_str s of
        None \<Rightarrow> Inl (ValueError (''invalid literal for int() with base 10: '' @ s))
      | Some n \<Rightarrow> Inr n)"
| "py_int PyNone = Inl TypeError"

text \<open>
  The wrapped refrigerator device: reading one of its temperature properties yields a
  value or raises. The compartment descriptors hold the accessor of their compartment.
\<close>

record LGERefrigeratorDevice =
  temp_fridge :: "error + pyvalue"
  temp_freezer :: "error + pyvalue"

record ThinQRefClimateEntityDescription =
  key :: string
  name :: string
  temp_fn :: "LGERefrigeratorDevice \<Rightarrow> error + pyvalue"

definition ATTR_FRIDGE :: string where
  "ATTR_FRIDGE = ''fridge''"

definition ATTR_FREEZER :: string where
  "ATTR_FREEZER = ''freezer''"

definition REFRIGERATOR_CLIMATE :: "ThinQRefClimateEntityDescription list" where
  "REFRIGERATOR_CLIMATE =
     [\<lparr>key = ATTR_FRIDGE, name = ''Fridge'', temp_fn = (\<lambda>x. temp_fridge x)\<rparr>,
      \<lparr>key = ATTR_FREEZER, name = ''Freezer'', temp_fn = (\<lambda>x. temp_freezer x)\<rparr>]"

record LGERefrigeratorClimate =
  wrap_device :: LGERefrigeratorDevice
  entity_description :: ThinQRefClimateEntityDescription

text \<open>
  The \<^verbatim>\<open>target_temperature\<close> property: the accessor is called outside the \<^verbatim>\<open>try\<close>, and
  the \<^verbatim>\<open>try\<close> catches ValueError only.
\<close>

definition target_temperature :: "LGERefrigeratorClimate \<Rightarrow> error + int option" where
  "target_temperature r =
     (case temp_fn (entity_description r) (wrap_device r) of
        Inl e \<Rightarrow> Inl e
      | Inr target_temp \<Rightarrow>
          if target_temp = PyNone then Inr None
          else
            (case py_int target_temp of
               Inr n \<Rightarrow> Inr (Some n)
             | Inl (ValueError msg) \<Rightarrow> Inr None
             | Inl e \<Rightarrow> Inl e))"

section \<open>Example devices\<close>

text \<open>
  A device with cooling, heating and one energy-saving mode, whose louvres swing
  horizontally only; a device with both energy-saving modes and both swing axes; a device
  none of whose operating modes is in the global table. Then some snapshots.
\<close>

definition ac_cool_heat :: AirConditionerDevice where
  "ac_cool_heat =
     \<lparr>op_modes = [''COOL'', ''HEAT'', ''ENERGY_SAVER''],
      vertical_swing_modes = [],
      horizontal_swing_modes = [''LEFT'', ''RIGHT'']\<rparr>"

definition ac_two_savers :: AirConditionerDevice where
  "ac_two_savers =
     \<lparr>op_modes = [''ENERGY_SAVER'', ''COOL'', ''ENERGY_SAVING''],
      vertical_swing_modes = [''UP'', ''DOWN''],
      horizontal_swing_modes = [''LEFT'', ''RIGHT'']\<rparr>"

definition ac_fan_only :: AirConditionerDevice where
  "ac_fan_only =
     \<lparr>op_modes = [''FAN''],
      vertical_swing_modes = [''UP'', ''DOWN''],
      horizontal_swing_modes = []\<rparr>"

definition status_off :: AirConditionerStatus where
  "status_off =
     \<lparr>is_on = False, operation_mode = Some ''COOL'',
      vertical_swing_mode = None, horizontal_swing_mode = None\<rparr>"

definition status_heat :: AirConditionerStatus where
  "status_heat =
     \<lparr>is_on = True, operation_mode = Some ''HEAT'',
      vertical_swing_mode = Some ''UP'', horizontal_swing_mode = Some ''LEFT''\<rparr>"

definition status_fan :: AirConditionerStatus where
  "status_fan =
     \<lparr>is_on = True, operation_mode = Some ''FAN'',
      vertical_swing_mode = Some ''DOWN'', horizontal_swing_mode = None\<rparr>"

definition status_saver :: AirConditionerStatus where
  "status_saver =
     \<lparr>is_on = True, operation_mode = Some ''ENERGY_SAVER'',
      vertical_swing_mode = None, horizontal_swing_mode = Some ''RIGHT''\<rparr>"

text \<open>
  An adapter that saw the device run in its energy-saving mode and then saw it switched
  off.
\<close>

definition saver_then_off :: LGEACClimate where
  "saver_then_off =
     (snd (hvac_mode (LGEACClimate_init ac_cool_heat status_saver [])))\<lparr>api_state := status_off\<rparr>"

definition fridge_device :: "error + pyvalue \<Rightarrow> LGERefrigeratorClimate" where
  "fridge_device outcome =
     \<lparr>wrap_device = \<lparr>temp_fridge = outcome, temp_freezer = Inr (PyStr ''-18'')\<rparr>,
      entity_description = hd REFRIGERATOR_CLIMATE\<rparr>"

section \<open>Facts about dictionaries\<close>

lemma map_of_dict_set: "map_of (dict_set d k v) = (map_of d)(k \<mapsto> v)"
  by (induction d k v rule: dict_set.induct) (auto simp: fun_eq_iff)

lemma keys_dict_set: "fst ` set (dict_set d k v) = insert k (fst ` set d)"
  by (induction d k v rule: dict_set.induct) auto

lemma distinct_dict_set: "distinct (map fst d) \<Longrightarrow> distinct (map fst (dict_set d k v))"
  by (induction d k v rule: dict_set.induct) (auto simp: keys_dict_set)

lemma values_dict_set: "snd ` set (dict_set d k v) \<subseteq> insert v (snd ` set d)"
  by (induction d k v rule: dict_set.induct) auto

lemma dict_set_nonempty: "dict_set d k v \<noteq> []"
  by (cases d) (auto split: if_splits)

lemma map_of_dict_invert_into:
  "map_of (dict_invert_into d acc) v = Some k \<Longrightarrow> (k, v) \<in> set d \<or> map_of acc v = Some k"
  by (induction d acc rule: dict_invert_into.induct)
     (auto simp: map_of_dict_set split: if_splits)

lemma keys_dict_invert_into:
  "fst ` set (dict_invert_into d acc) = snd ` set d \<union> fst ` set acc"
  by (induction d acc rule: dict_invert_into.induct) (auto simp: keys_dict_set)

lemma distinct_dict_invert_into:
  "distinct (map fst acc) \<Longrightarrow> distinct (map fst (dict_invert_into d acc))"
  by (induction d acc rule: dict_invert_into.induct) (auto simp: distinct_dict_set)

lemma dict_invert_into_eq_Nil: "dict_invert_into d acc = [] \<longleftrightarrow> d = [] \<and> acc = []"
  by (induction d acc rule: dict_invert_into.induct) (auto simp: dict_set_nonempty)

lemma dict_get_invert:
  "dict_get (dict_invert d) v = Some k \<Longrightarrow> (k, v) \<in> set d"
  using map_of_dict_invert_into [of d "[]" v k] by (simp add: dict_get_def dict_invert_def)

lemma dict_get_invert_None:
  "dict_get (dict_invert d) v = None \<longleftrightarrow> v \<notin> set (dict_values d)"
  using keys_dict_invert_into [of d "[]"]
  by (auto simp: dict_get_def dict_invert_def dict_values_def map_of_eq_None_iff)

lemma keys_dict_invert: "set (map fst (dict_invert d)) = set (dict_values d)"
  by (simp add: dict_invert_def dict_values_def keys_dict_invert_into)

lemma dict_invert_eq_Nil: "dict_invert d = [] \<longleftrightarrow> d = []"
  by (simp add: dict_invert_def dict_invert_into_eq_Nil)

lemma map_of_filter_keys: "map_of (filter (\<lambda>(k, v). k \<in> S) d) = map_of d |` S"
  by (induction d) (auto simp: fun_eq_iff restrict_map_def)

lemma filter_keys_empty_iff:
  "filter (\<lambda>(k, v). k \<in> S) d = [] \<longleftrightarrow> S \<inter> set (map fst d) = {}"
  by (induction d) auto

section \<open>The memoized tables\<close>

lemma fst_available_hvac_modes:
  "cache_inv s \<Longrightarrow> fst (available_hvac_modes s) = derive_hvac_modes (op_modes (device s))"
  by (auto simp: cache_inv_def available_hvac_modes_def Let_def split: option.splits)

lemma snd_available_hvac_modes:
  "cache_inv s \<Longrightarrow>
   snd (available_hvac_modes s) =
     s\<lparr>hvac_mode_lookup := Some (derive_hvac_modes (op_modes (device s)))\<rparr>"
  by (auto simp: cache_inv_def available_hvac_modes_def Let_def split: option.splits)

lemma cache_inv_init: "cache_inv (LGEACClimate_init dev st fs)"
  by (simp add: cache_inv_def LGEACClimate_init_def Let_def)

lemma available_hvac_modes_frame:
  "snd (available_hvac_modes s) = s\<lparr>hvac_mode_lookup := Some (fst (available_hvac_modes s))\<rparr>"
  by (auto simp: available_hvac_modes_def Let_def split: option.splits)

lemma available_preset_modes_frame:
  "commands (snd (available_preset_modes s)) = commands s \<and>
   updated (snd (available_preset_modes s)) = updated s \<and>
   faults (snd (available_preset_modes s)) = faults s \<and>
   api_state (snd (available_preset_modes s)) = api_state s \<and>
   device (snd (available_preset_modes s)) = device s"
  by (auto simp: available_preset_modes_def available_hvac_modes_def Let_def
           split: option.splits prod.splits)

section \<open>Every method keeps the invariants\<close>

lemma keeps_refl: "keeps s s"
  by (simp add: keeps_def)

lemma keeps_trans: "keeps s s1 \<Longrightarrow> keeps s1 s2 \<Longrightarrow> keeps s s2"
  by (simp add: keeps_def)

lemma keeps_outside:
  "keeps s (s\<lparr>api_state := st, faults := fs\<rparr>)"
  "keeps s (s\<lparr>attr_preset_mode := p\<rparr>)"
  "keeps s (s\<lparr>commands := cs\<rparr>)"
  "keeps s (s\<lparr>commands := cs, faults := fs\<rparr>)"
  "keeps s (s\<lparr>updated := n\<rparr>)"
  by (auto simp: keeps_def static_def cache_inv_def split: option.splits)

lemma keeps_available_hvac_modes: "keeps s (snd (available_hvac_modes s))"
  by (auto simp: keeps_def static_def cache_inv_def available_hvac_modes_def Let_def
           split: option.splits)

lemma keeps_reset_preset: "keeps s (reset_preset s)"
  by (simp add: reset_preset_def keeps_outside keeps_refl)

lemma keeps_available_preset_modes: "keeps s (snd (available_preset_modes s))"
  by (auto simp: keeps_def static_def cache_inv_def available_preset_modes_def
        available_hvac_modes_def Let_def split: option.splits)

lemma keeps_device_call: "keeps s (snd (device_call c s))"
  by (auto simp: device_call_def keeps_outside split: list.splits)

lemma keeps_async_set_updated: "keeps s (async_set_updated s)"
  by (simp add: async_set_updated_def keeps_outside)

lemma keeps_power_on_if_off: "keeps s (snd (power_on_if_off s))"
  by (simp add: power_on_if_off_def keeps_device_call keeps_refl)

lemma keeps_hvac_mode: "keeps s (snd (hvac_mode s))"
proof (cases "operation_mode (api_state s)")
  case None
  then show ?thesis by (simp add: hvac_mode_def keeps_reset_preset)
next
  case (Some c)
  show ?thesis
  proof (cases "is_on (api_state s)")
    case False
    with Some show ?thesis by (simp add: hvac_mode_def keeps_reset_preset)
  next
    case True
    obtain p s1 where a: "available_preset_modes s = (p, s1)"
      by (cases "available_preset_modes s")
    have k1: "keeps s s1"
      using keeps_available_preset_modes [of s] a by simp
    show ?thesis
    proof (cases "dict_has p c")
      case True
      have "keeps s1 (s1\<lparr>attr_preset_mode := dict_get p c\<rparr>)"
        by (rule keeps_outside)
      with k1 have "keeps s (s1\<lparr>attr_preset_mode := dict_get p c\<rparr>)"
        by (rule keeps_trans)
      with Some \<open>is_on (api_state s)\<close> a True show ?thesis
        by (simp add: hvac_mode_def Let_def split: option.splits)
    next
      case False
      have "keeps s1 (snd (available_hvac_modes (reset_preset s1)))"
        using keeps_reset_preset keeps_available_hvac_modes by (rule keeps_trans)
      with k1 have "keeps s (snd (available_hvac_modes (reset_preset s1)))"
        by (rule keeps_trans)
      with Some \<open>is_on (api_state s)\<close> a False show ?thesis
        by (auto simp: hvac_mode_def Let_def split: prod.splits)
    qed
  qed
qed

lemma keeps_hvac_modes: "keeps s (snd (hvac_modes s))"
  using keeps_available_hvac_modes [of s]
  by (auto simp: hvac_modes_def Let_def split: prod.splits)

lemma keeps_preset_modes: "keeps s (snd (preset_modes s))"
  using keeps_available_preset_modes [of s]
  by (auto simp: preset_modes_def Let_def split: prod.splits)

text \<open>The tail shared by the two setters: power on if off, set the mode, mark updated.\<close>

lemma keeps_step:
  assumes "keeps s (snd (f s))"
  shows "keeps s (snd (case f s of (Inl e, s1) \<Rightarrow> (Inl e, s1)
                        | (Inr u, s1) \<Rightarrow> (Inr (), async_set_updated s1)))"
proof -
  obtain r s1 where f: "f s = (r, s1)" by (cases "f s")
  have "keeps s s1" using assms f by simp
  moreover have "keeps s1 (async_set_updated s1)" by (rule keeps_async_set_updated)
  ultimately have "keeps s (async_set_updated s1)" by (rule keeps_trans)
  with \<open>keeps s s1\<close> f show ?thesis by (cases r) simp_all
qed

lemma keeps_async_set_hvac_mode: "keeps s (snd (async_set_hvac_mode m s))"
proof (cases "m = OFF")
  case True
  then show ?thesis
    using keeps_step [of s "device_call (Power False)", OF keeps_device_call]
    by (simp add: async_set_hvac_mode_def)
next
  case False
  obtain t s1 where a: "available_hvac_modes s = (t, s1)"
    by (cases "available_hvac_modes s")
  have k1: "keeps s s1" using keeps_available_hvac_modes [of s] a by simp
  show ?thesis
  proof (cases "dict_get (dict_invert t) m")
    case None
    with False a k1 show ?thesis by (simp add: async_set_hvac_mode_def)
  next
    case (Some code)
    obtain r s2 where p: "power_on_if_off s1 = (r, s2)" by (cases "power_on_if_off s1")
    have k2: "keeps s s2"
      using k1 keeps_power_on_if_off [of s1] p by (auto intro: keeps_trans)
    let ?g = "\<lambda>x. if code \<noteq> HVAC_MODE_NONE then device_call (SetOpMode code) x else (Inr (), x)"
    have "keeps s2 (snd (?g s2))" by (simp add: keeps_device_call keeps_refl)
    then have "keeps s2 (snd (case ?g s2 of (Inl e, s3) \<Rightarrow> (Inl e, s3)
                               | (Inr u, s3) \<Rightarrow> (Inr (), async_set_updated s3)))"
      by (rule keeps_step)
    with k2 have "keeps s (snd (case ?g s2 of (Inl e, s3) \<Rightarrow> (Inl e, s3)
                               | (Inr u, s3) \<Rightarrow> (Inr (), async_set_updated s3)))"
      by (rule keeps_trans)
    with False a Some p k2 show ?thesis
      by (cases r) (simp_all add: async_set_hvac_mode_def)
  qed
qed

lemma keeps_async_set_preset_mode: "keeps s (snd (async_set_preset_mode p s))"
proof -
  obtain t s1 where a: "available_preset_modes s = (t, s1)"
    by (cases "available_preset_modes s")
  have k1: "keeps s s1" using keeps_available_preset_modes [of s] a by simp
  have none: "keeps s (snd (case attr_preset_mode s1 of
                 None \<Rightarrow> (Inl (KeyError ''None''), s1)
               | Some curr_preset \<Rightarrow>
                   (case dict_get (dict_invert t) curr_preset of
                      None \<Rightarrow> (Inl (KeyError curr_preset), s1)
                    | Some op_mode \<Rightarrow>
                        (case dict_get PRESET_MODE_LOOKUP op_mode of
                           None \<Rightarrow> (Inl (KeyError op_mode), s1)
                         | Some e \<Rightarrow> async_set_hvac_mode (hvac e) s1))))"
    using k1 keeps_trans [OF k1 keeps_async_set_hvac_mode]
    by (simp split: option.splits)
  have other: "keeps s (snd (case dict_get (dict_invert t) p of
                  None \<Rightarrow> (Inl (ValueError (''Invalid preset_mode ['' @ p @ '']'')), s1)
                | Some operation_code \<Rightarrow>
                    (case power_on_if_off s1 of
                       (Inl e, s2) \<Rightarrow> (Inl e, s2)
                     | (Inr u, s2) \<Rightarrow>
                         (case device_call (SetOpMode operation_code) s2 of
                            (Inl e, s3) \<Rightarrow> (Inl e, s3)
                          | (Inr u, s3) \<Rightarrow> (Inr (), async_set_updated s3)))))"
  proof (cases "dict_get (dict_invert t) p")
    case None
    with k1 show ?thesis by simp
  next
    case (Some code)
    obtain r s2 where q: "power_on_if_off s1 = (r, s2)" by (cases "power_on_if_off s1")
    have k2: "keeps s s2"
      using k1 keeps_power_on_if_off [of s1] q by (auto intro: keeps_trans)
    have "keeps s2 (snd (case device_call (SetOpMode code) s2 of (Inl e, s3) \<Rightarrow> (Inl e, s3)
                               | (Inr u, s3) \<Rightarrow> (Inr (), async_set_updated s3)))"
      using keeps_device_call by (rule keeps_step)
    with k2 have "keeps s (snd (case device_call (SetOpMode code) s2 of
                                 (Inl e, s3) \<Rightarrow> (Inl e, s3)
                               | (Inr u, s3) \<Rightarrow> (Inr (), async_set_updated s3)))"
      by (rule keeps_trans)
    with Some q k2 show ?thesis by (cases r) simp_all
  qed
  show ?thesis
    using a k1 none other by (simp add: async_set_preset_mode_def Let_def)
qed

lemma keeps_async_set_swing_mode: "keeps s (snd (async_set_swing_mode v s))"
  using keeps_step [of s "device_call (SetHorizontalSwingMode v)", OF keeps_device_call]
        keeps_step [of s "device_call (SetVerticalSwingMode v)", OF keeps_device_call]
  by (simp add: async_set_swing_mode_def keeps_refl)

lemma keeps_async_set_swing_horizontal_mode:
  "keeps s (snd (async_set_swing_horizontal_mode v s))"
  using keeps_step [of s "device_call (SetHorizontalSwingMode v)", OF keeps_device_call]
  by (simp add: async_set_swing_horizontal_mode_def keeps_refl)

lemma static_init:
  "static (LGEACClimate_init dev st fs) = static (LGEACClimate_init dev st' fs')"
  by (simp add: static_def LGEACClimate_init_def Let_def)

lemma swing_inv_init: "swing_inv (LGEACClimate_init dev st fs)"
  by (simp add: swing_inv_def static_def LGEACClimate_init_def Let_def)

lemma keeps_swing_inv:
  assumes "keeps s s'" and "swing_inv s"
  shows "swing_inv s'"
proof -
  have st: "static s' = static s" using assms(1) by (simp add: keeps_def)
  then have d: "device s' = device s" by (simp add: static_def)
  have "static s' = static (LGEACClimate_init (device s) (api_state s) (faults s))"
    using st assms(2) by (simp add: swing_inv_def)
  also have "\<dots> = static (LGEACClimate_init (device s') (api_state s') (faults s'))"
    unfolding d by (rule static_init)
  finally show ?thesis by (simp add: swing_inv_def)
qed

lemma keeps_cache_inv: "keeps s s' \<Longrightarrow> cache_inv s \<Longrightarrow> cache_inv s'"
  by (simp add: keeps_def)

lemma reachable_inv: "reachable s \<Longrightarrow> cache_inv s \<and> swing_inv s"
proof (induction rule: reachable.induct)
  case (r_init dev st fs)
  show ?case by (simp add: cache_inv_init swing_inv_init)
next
  case (r_poll s st fs)
  then show ?case
    using keeps_outside(1) [of s st fs] by (blast intro: keeps_cache_inv keeps_swing_inv)
next
  case (r_hvac_mode s)
  then show ?case
    using keeps_hvac_mode [of s] by (blast intro: keeps_cache_inv keeps_swing_inv)
next
  case (r_hvac_modes s)
  then show ?case
    using keeps_hvac_modes [of s] by (blast intro: keeps_cache_inv keeps_swing_inv)
next
  case (r_preset_modes s)
  then show ?case
    using keeps_preset_modes [of s] by (blast intro: keeps_cache_inv keeps_swing_inv)
next
  case (r_set_hvac_mode s m)
  then show ?case
    using keeps_async_set_hvac_mode [of s m] by (blast intro: keeps_cache_inv keeps_swing_inv)
next
  case (r_set_preset_mode s p)
  then show ?case
    using keeps_async_set_preset_mode [of s p]
    by (blast intro: keeps_cache_inv keeps_swing_inv)
next
  case (r_set_swing_mode s v)
  then show ?case
    using keeps_async_set_swing_mode [of s v]
    by (blast intro: keeps_cache_inv keeps_swing_inv)
next
  case (r_set_swing_horizontal_mode s v)
  then show ?case
    using keeps_async_set_swing_horizontal_mode [of s v]
    by (blast intro: keeps_cache_inv keeps_swing_inv)
qed

section \<open>The preset loop and the example inputs\<close>

lemma preset_loop_values:
  "snd ` set (preset_loop S hv items modes) \<subseteq>
     snd ` set modes \<union> {k. \<exists>e. (k, e) \<in> set items \<and> k \<in> set S \<and> hvac e \<in> set hv}"
proof (induction S hv items modes rule: preset_loop.induct)
  case (1 S hv modes)
  show ?case by simp
next
  case (2 S hv key mode items modes)
  let ?later = "{k. \<exists>e. (k, e) \<in> set items \<and> k \<in> set S \<and> hvac e \<in> set hv}"
  let ?all = "{k. \<exists>e. (k, e) \<in> set ((key, mode) # items) \<and> k \<in> set S \<and> hvac e \<in> set hv}"
  have later: "?later \<subseteq> ?all" by auto
  show ?case
  proof (cases "key \<in> set S \<and> hvac mode \<in> set hv")
    case True
    have "snd ` set (preset_loop S hv items (dict_set modes (preset mode) key)) \<subseteq>
            snd ` set (dict_set modes (preset mode) key) \<union> ?later"
      using 2 True by simp
    moreover have "snd ` set (dict_set modes (preset mode) key) \<subseteq> insert key (snd ` set modes)"
      by (rule values_dict_set)
    moreover have "key \<in> ?all"
      using True by auto
    ultimately have "snd ` set (preset_loop S hv items (dict_set modes (preset mode) key)) \<subseteq>
                       snd ` set modes \<union> ?all"
      using later by blast
    then show ?thesis using True by simp
  next
    case False
    have "snd ` set (preset_loop S hv items modes) \<subseteq> snd ` set modes \<union> ?later"
      using 2 False by auto
    then have "snd ` set (preset_loop S hv items modes) \<subseteq> snd ` set modes \<union> ?all"
      using later by blast
    then show ?thesis using False by auto
  qed
qed

lemma preset_loop_snoc:
  "preset_loop S hv (items @ [(k, e)]) modes =
     (if k \<in> set S \<and> hvac e \<in> set hv
      then dict_set (preset_loop S hv items modes) (preset e) k
      else preset_loop S hv items modes)"
  by (induction S hv items modes rule: preset_loop.induct) auto

lemma preset_loop_last_write:
  assumes "k \<in> set S" and "hvac e \<in> set hv"
  shows "dict_get (preset_loop S hv (items @ [(k, e)]) modes) (preset e) = Some k"
  using assms by (simp add: preset_loop_snoc dict_get_def map_of_dict_set)

lemma fst_available_preset_modes:
  assumes "cache_inv s"
  shows "fst (available_preset_modes s) =
           dict_invert (preset_loop (op_modes (device s))
             (dict_values (derive_hvac_modes (op_modes (device s)))) PRESET_MODE_LOOKUP [])"
proof (cases "preset_mode_lookup s")
  case None
  obtain t s1 where a: "available_hvac_modes s = (t, s1)"
    by (cases "available_hvac_modes s")
  have t: "t = derive_hvac_modes (op_modes (device s))"
    using fst_available_hvac_modes [OF assms] a by simp
  have d: "device s1 = device s"
    using available_hvac_modes_frame [of s] a by simp
  show ?thesis
    using None a t d by (simp add: available_preset_modes_def Let_def)
next
  case (Some p)
  then show ?thesis
    using assms by (simp add: available_preset_modes_def cache_inv_def)
qed

lemma distinct_keys_PRESET_MODE_LOOKUP: "distinct (map fst PRESET_MODE_LOOKUP)"
  by (simp add: PRESET_MODE_LOOKUP_def)

lemma saver_then_off_preset: "attr_preset_mode saver_then_off = Some ''eco''"
  by (simp add: saver_then_off_def LGEACClimate_init_def Let_def hvac_mode_def
        available_preset_modes_def available_hvac_modes_def derive_hvac_modes_def
        ac_cool_heat_def status_saver_def HVAC_MODE_LOOKUP_def PRESET_MODE_LOOKUP_def
        PRESET_ECO_def dict_values_def dict_invert_def dict_has_def dict_get_def)

lemma fridge_device_accessor:
  "temp_fn (entity_description (fridge_device out)) (wrap_device (fridge_device out)) = out"
  by (simp add: fridge_device_def REFRIGERATOR_CLIMATE_def)

section \<open>Reading the HVAC mode of a running device\<close>

lemma keeps_device: "keeps s s' \<Longrightarrow> device s' = device s"
  by (simp add: keeps_def static_def)

lemma derive_hvac_modes_cases:
  "derive_hvac_modes S = [(HVAC_MODE_NONE, AUTO)] \<or>
   derive_hvac_modes S = filter (\<lambda>(key, mode). key \<in> set S) HVAC_MODE_LOOKUP"
  by (simp add: derive_hvac_modes_def Let_def)

lemma distinct_keys_derive_hvac_modes: "distinct (map fst (derive_hvac_modes S))"
proof -
  have "distinct (map fst HVAC_MODE_LOOKUP)"
    by (simp add: HVAC_MODE_LOOKUP_def)
  then have "distinct (map fst (filter (\<lambda>(key, mode). key \<in> set S) HVAC_MODE_LOOKUP))"
    by (rule distinct_map_filter)
  then show ?thesis
    using derive_hvac_modes_cases [of S] by auto
qed

lemma derive_hvac_modes_entry:
  assumes "(code, m) \<in> set (derive_hvac_modes S)"
  shows "dict_get (derive_hvac_modes S) code = Some m"
  using assms distinct_keys_derive_hvac_modes [of S] by (simp add: dict_get_def)

lemma derive_hvac_modes_sentinel:
  assumes "(HVAC_MODE_NONE, m) \<in> set (derive_hvac_modes S)"
  shows "derive_hvac_modes S = [(HVAC_MODE_NONE, AUTO)]"
proof -
  have "(HVAC_MODE_NONE, m) \<notin> set (filter (\<lambda>(key, mode). key \<in> set S) HVAC_MODE_LOOKUP)"
    by (auto simp: HVAC_MODE_LOOKUP_def HVAC_MODE_NONE_def)
  then show ?thesis
    using assms derive_hvac_modes_cases [of S] by auto
qed

lemma derive_hvac_modes_known:
  assumes "(code, m) \<in> set (derive_hvac_modes S)" and "code \<noteq> HVAC_MODE_NONE"
  shows "code \<in> set (map fst HVAC_MODE_LOOKUP)"
  using assms derive_hvac_modes_cases [of S] by force

lemma preset_keys_known:
  assumes "cache_inv s"
  shows "set (map fst (fst (available_preset_modes s))) \<subseteq> set (map fst PRESET_MODE_LOOKUP)"
proof
  fix code
  let ?S = "op_modes (device s)"
  let ?hv = "dict_values (derive_hvac_modes ?S)"
  let ?modes = "preset_loop ?S ?hv PRESET_MODE_LOOKUP []"
  assume "code \<in> set (map fst (fst (available_preset_modes s)))"
  then have "code \<in> set (map fst (dict_invert ?modes))"
    by (simp only: fst_available_preset_modes [OF assms])
  then have "code \<in> set (dict_values ?modes)"
    by (simp only: keys_dict_invert)
  then have "code \<in> snd ` set ?modes"
    by (simp add: dict_values_def)
  moreover have "snd ` set ?modes \<subseteq>
      {k. \<exists>e. (k, e) \<in> set PRESET_MODE_LOOKUP \<and> k \<in> set ?S \<and> hvac e \<in> set ?hv}"
    using preset_loop_values [of ?S ?hv PRESET_MODE_LOOKUP "[]"] by simp
  ultimately obtain e where "(code, e) \<in> set PRESET_MODE_LOOKUP"
    by blast
  then have "fst (code, e) \<in> fst ` set PRESET_MODE_LOOKUP"
    by (rule imageI)
  then show "code \<in> set (map fst PRESET_MODE_LOOKUP)"
    by simp
qed

lemma preset_table_sentinel:
  assumes "cache_inv s"
    and "derive_hvac_modes (op_modes (device s)) = [(HVAC_MODE_NONE, AUTO)]"
  shows "fst (available_preset_modes s) = []"
  unfolding fst_available_preset_modes [OF assms(1)] assms(2)
  by (simp add: PRESET_MODE_LOOKUP_def dict_values_def dict_invert_def)

lemma tables_disjoint:
  "code \<in> set (map fst HVAC_MODE_LOOKUP) \<Longrightarrow> code \<notin> set (map fst PRESET_MODE_LOOKUP)"
  by (auto simp: HVAC_MODE_LOOKUP_def PRESET_MODE_LOOKUP_def)

lemma hvac_mode_plain:
  assumes "cache_inv s"
    and "is_on (api_state s)"
    and "operation_mode (api_state s) = Some c"
    and "\<not> dict_has (fst (available_preset_modes s)) c"
  shows "fst (hvac_mode s) =
           Inr (case dict_get (derive_hvac_modes (op_modes (device s))) c of
                  Some m \<Rightarrow> m | None \<Rightarrow> AUTO)"
proof -
  obtain p s1 where a: "available_preset_modes s = (p, s1)"
    by (cases "available_preset_modes s")
  have k1: "keeps s s1"
    using keeps_available_preset_modes [of s] a by simp
  have k2: "keeps s (reset_preset s1)"
    using k1 keeps_reset_preset by (rule keeps_trans)
  have c2: "cache_inv (reset_preset s1)"
    using k2 assms(1) by (rule keeps_cache_inv)
  have d2: "device (reset_preset s1) = device s"
    using k2 by (rule keeps_device)
  obtain t s3 where b: "available_hvac_modes (reset_preset s1) = (t, s3)"
    by (cases "available_hvac_modes (reset_preset s1)")
  have t: "t = derive_hvac_modes (op_modes (device s))"
    using fst_available_hvac_modes [OF c2] b d2 by simp
  have "\<not> dict_has p c"
    using assms(4) a by simp
  then show ?thesis
    using assms(2,3) a b t by (simp add: hvac_mode_def)
qed

lemma device_call_ok:
  assumes "True \<notin> set (faults s)"
  shows "fst (device_call c s) = Inr ()"
    and "commands (snd (device_call c s)) = commands s @ [c]"
    and "True \<notin> set (faults (snd (device_call c s)))"
    and "api_state (snd (device_call c s)) = api_state s"
    and "updated (snd (device_call c s)) = updated s"
  using assms by (auto simp: device_call_def split: list.splits)

section \<open>The derived HVAC-mode table\<close>

text \<open>
  Claim C1. For every set of operating modes of the device, the table returned by
  \<^verbatim>\<open>_available_hvac_modes\<close> is not empty; when the device shares a key with the global
  table it is the global table restricted to the device's modes (as a dict, in the order
  of the global table), and when it shares none it is exactly the sentinel entry mapped
  to AUTO.
\<close>

theorem available_hvac_modes_table:
  assumes "cache_inv s"
  shows "fst (available_hvac_modes s) \<noteq> [] \<and>
         (set (op_modes (device s)) \<inter> set (map fst HVAC_MODE_LOOKUP) \<noteq> {} \<longrightarrow>
            fst (available_hvac_modes s) =
              filter (\<lambda>(key, mode). key \<in> set (op_modes (device s))) HVAC_MODE_LOOKUP \<and>
            map_of (fst (available_hvac_modes s)) =
              map_of HVAC_MODE_LOOKUP |` set (op_modes (device s))) \<and>
         (set (op_modes (device s)) \<inter> set (map fst HVAC_MODE_LOOKUP) = {} \<longrightarrow>
            fst (available_hvac_modes s) = [(HVAC_MODE_NONE, AUTO)])"
proof -
  let ?S = "set (op_modes (device s))"
  let ?t = "filter (\<lambda>(key, mode). key \<in> ?S) HVAC_MODE_LOOKUP"
  have eq: "fst (available_hvac_modes s) = (if ?t = [] then [(HVAC_MODE_NONE, AUTO)] else ?t)"
    using assms by (simp add: fst_available_hvac_modes derive_hvac_modes_def Let_def)
  have emp: "?t = [] \<longleftrightarrow> ?S \<inter> set (map fst HVAC_MODE_LOOKUP) = {}"
    by (rule filter_keys_empty_iff)
  have m: "map_of ?t = map_of HVAC_MODE_LOOKUP |` ?S"
    by (rule map_of_filter_keys)
  show ?thesis
    using eq emp m by auto
qed

theorem available_hvac_modes_table_witness:
  "cache_inv (LGEACClimate_init ac_cool_heat status_off []) \<and>
   fst (available_hvac_modes (LGEACClimate_init ac_cool_heat status_off [])) =
     [(''HEAT'', HEAT), (''COOL'', COOL)] \<and>
   cache_inv (LGEACClimate_init ac_fan_only status_off []) \<and>
   fst (available_hvac_modes (LGEACClimate_init ac_fan_only status_off [])) = [(''--'', AUTO)]"
proof -
  have i1: "cache_inv (LGEACClimate_init ac_cool_heat status_off [])"
    by (rule cache_inv_init)
  have i2: "cache_inv (LGEACClimate_init ac_fan_only status_off [])"
    by (rule cache_inv_init)
  have d1: "device (LGEACClimate_init ac_cool_heat status_off []) = ac_cool_heat"
    by (simp add: LGEACClimate_init_def Let_def)
  have d2: "device (LGEACClimate_init ac_fan_only status_off []) = ac_fan_only"
    by (simp add: LGEACClimate_init_def Let_def)
  have t1: "fst (available_hvac_modes (LGEACClimate_init ac_cool_heat status_off [])) =
              [(''HEAT'', HEAT), (''COOL'', COOL)]"
    using available_hvac_modes_table [OF i1] unfolding d1
    by (simp add: ac_cool_heat_def HVAC_MODE_LOOKUP_def)
  have t2: "fst (available_hvac_modes (LGEACClimate_init ac_fan_only status_off [])) =
              [(''--'', AUTO)]"
    using available_hvac_modes_table [OF i2] unfolding d2
    by (simp add: ac_fan_only_def HVAC_MODE_LOOKUP_def HVAC_MODE_NONE_def)
  show ?thesis using i1 i2 t1 t2 by simp
qed

section \<open>The derived preset table\<close>

text \<open>
  Claim C2. Every vendor code of the table returned by \<^verbatim>\<open>_available_preset_modes\<close> is an
  operating mode of the device, and the HVAC mode that the global preset table associates
  with it is a value of the derived HVAC table. Two codes of the global preset table with
  the same preset label do not raise: the later one overwrites the earlier, so a device
  with both energy-saving codes (and cooling) gets the single entry of the later code.
  The loop does so for any table of items: after an item that passes both tests, its
  label resolves to its code, whatever was recorded for the label before.
\<close>

theorem available_preset_modes_sound:
  assumes "cache_inv s"
  shows "(\<forall>code \<in> set (map fst (fst (available_preset_modes s))).
            code \<in> set (op_modes (device s)) \<and>
            (\<exists>e. dict_get PRESET_MODE_LOOKUP code = Some e \<and>
                 hvac e \<in> set (dict_values (fst (available_hvac_modes s))))) \<and>
         (''ENERGY_SAVING'' \<in> set (op_modes (device s)) \<and>
          ''ENERGY_SAVER'' \<in> set (op_modes (device s)) \<and>
          COOL \<in> set (dict_values (fst (available_hvac_modes s))) \<longrightarrow>
            fst (available_preset_modes s) = [(''ENERGY_SAVER'', PRESET_ECO)]) \<and>
         (\<forall>items k e modes.
            k \<in> set (op_modes (device s)) \<and>
            hvac e \<in> set (dict_values (fst (available_hvac_modes s))) \<longrightarrow>
            dict_get (preset_loop (op_modes (device s))
              (dict_values (fst (available_hvac_modes s))) (items @ [(k, e)]) modes) (preset e) =
              Some k)"
proof -
  let ?S = "op_modes (device s)"
  let ?hv = "dict_values (derive_hvac_modes ?S)"
  let ?modes = "preset_loop ?S ?hv PRESET_MODE_LOOKUP []"
  have P: "fst (available_preset_modes s) = dict_invert ?modes"
    using assms by (rule fst_available_preset_modes)
  have H: "fst (available_hvac_modes s) = derive_hvac_modes ?S"
    using assms by (rule fst_available_hvac_modes)
  have keys: "set (map fst (dict_invert ?modes)) = snd ` set ?modes"
    using keys_dict_invert [of ?modes] by (simp add: dict_values_def)
  have vals: "snd ` set ?modes \<subseteq>
                {k. \<exists>e. (k, e) \<in> set PRESET_MODE_LOOKUP \<and> k \<in> set ?S \<and> hvac e \<in> set ?hv}"
    using preset_loop_values [of ?S ?hv PRESET_MODE_LOOKUP "[]"] by simp
  have part1: "\<forall>code \<in> set (map fst (fst (available_preset_modes s))).
                 code \<in> set ?S \<and>
                 (\<exists>e. dict_get PRESET_MODE_LOOKUP code = Some e \<and>
                      hvac e \<in> set (dict_values (fst (available_hvac_modes s))))"
  proof
    fix code
    assume "code \<in> set (map fst (fst (available_preset_modes s)))"
    then have "code \<in> snd ` set ?modes"
      using P keys by simp
    then obtain e where e: "(code, e) \<in> set PRESET_MODE_LOOKUP" "code \<in> set ?S"
        "hvac e \<in> set ?hv"
      using vals by blast
    have "dict_get PRESET_MODE_LOOKUP code = Some e"
      using e(1) distinct_keys_PRESET_MODE_LOOKUP by (simp add: dict_get_def)
    then show "code \<in> set ?S \<and>
               (\<exists>e. dict_get PRESET_MODE_LOOKUP code = Some e \<and>
                    hvac e \<in> set (dict_values (fst (available_hvac_modes s))))"
      using e(2,3) H by auto
  qed
  have part2: "''ENERGY_SAVING'' \<in> set ?S \<and> ''ENERGY_SAVER'' \<in> set ?S \<and>
               COOL \<in> set (dict_values (fst (available_hvac_modes s))) \<longrightarrow>
               fst (available_preset_modes s) = [(''ENERGY_SAVER'', PRESET_ECO)]"
    unfolding P H by (simp add: PRESET_MODE_LOOKUP_def dict_invert_def)
  have part3: "\<forall>items k e modes.
                 k \<in> set ?S \<and> hvac e \<in> set (dict_values (fst (available_hvac_modes s))) \<longrightarrow>
                 dict_get (preset_loop ?S (dict_values (fst (available_hvac_modes s)))
                   (items @ [(k, e)]) modes) (preset e) = Some k"
    by (simp add: preset_loop_last_write)
  show ?thesis
    using part1 part2 part3 by (intro conjI)
qed

theorem available_preset_modes_sound_witness:
  "cache_inv (LGEACClimate_init ac_two_savers status_heat []) \<and>
   fst (available_preset_modes (LGEACClimate_init ac_two_savers status_heat [])) =
     [(''ENERGY_SAVER'', ''eco'')] \<and>
   ''ENERGY_SAVER'' \<in> set (op_modes (device (LGEACClimate_init ac_two_savers status_heat []))) \<and>
   dict_get PRESET_MODE_LOOKUP ''ENERGY_SAVER'' = Some \<lparr>preset = ''eco'', hvac = COOL\<rparr> \<and>
   COOL \<in> set (dict_values (fst (available_hvac_modes
     (LGEACClimate_init ac_two_savers status_heat []))))"
proof -
  let ?s = "LGEACClimate_init ac_two_savers status_heat []"
  have i: "cache_inv ?s"
    by (rule cache_inv_init)
  have d: "device ?s = ac_two_savers"
    by (simp add: LGEACClimate_init_def Let_def)
  have S: "''ENERGY_SAVING'' \<in> set (op_modes (device ?s)) \<and>
           ''ENERGY_SAVER'' \<in> set (op_modes (device ?s))"
    unfolding d by (simp add: ac_two_savers_def)
  have c: "COOL \<in> set (dict_values (fst (available_hvac_modes ?s)))"
    by (simp add: LGEACClimate_init_def Let_def available_hvac_modes_def
          derive_hvac_modes_def ac_two_savers_def HVAC_MODE_LOOKUP_def dict_values_def)
  have p: "fst (available_preset_modes ?s) = [(''ENERGY_SAVER'', ''eco'')]"
    using available_preset_modes_sound [OF i, THEN conjunct2, THEN conjunct1] S c
    by (simp add: PRESET_ECO_def)
  have g: "dict_get PRESET_MODE_LOOKUP ''ENERGY_SAVER'' = Some \<lparr>preset = ''eco'', hvac = COOL\<rparr>"
    by (simp add: dict_get_def PRESET_MODE_LOOKUP_def PRESET_ECO_def)
  show ?thesis
    using i p S c g by blast
qed

section \<open>Setting the HVAC mode\<close>

text \<open>
  Claim C5. In every adapter state, \<^verbatim>\<open>async_set_hvac_mode(OFF)\<close> issues exactly one
  device command, the power-off: no set-operating-mode command and no power-on. The
  snapshot, the active preset and the memoized tables are as before.
\<close>

theorem set_hvac_mode_off:
  "commands (snd (async_set_hvac_mode OFF s)) = commands s @ [Power False] \<and>
   api_state (snd (async_set_hvac_mode OFF s)) = api_state s \<and>
   attr_preset_mode (snd (async_set_hvac_mode OFF s)) = attr_preset_mode s \<and>
   hvac_mode_lookup (snd (async_set_hvac_mode OFF s)) = hvac_mode_lookup s \<and>
   preset_mode_lookup (snd (async_set_hvac_mode OFF s)) = preset_mode_lookup s"
  by (auto simp: async_set_hvac_mode_def device_call_def async_set_updated_def
           split: list.splits prod.splits sum.splits)

text \<open>
  Claim C6. For an HVAC mode other than OFF that the reverse lookup of the derived table
  does not resolve, \<^verbatim>\<open>async_set_hvac_mode\<close> raises the ValueError that names the requested
  mode; no device command is issued and the coordinator is not marked updated. The adapter
  is as before but for the memoized table.
\<close>

theorem set_hvac_mode_invalid:
  assumes "m \<noteq> OFF"
    and "dict_get (dict_invert (fst (available_hvac_modes s))) m = None"
  shows "fst (async_set_hvac_mode m s) =
           Inl (ValueError (''Invalid hvac_mode ['' @ HVACMode_value m @ '']'')) \<and>
         commands (snd (async_set_hvac_mode m s)) = commands s \<and>
         updated (snd (async_set_hvac_mode m s)) = updated s \<and>
         snd (async_set_hvac_mode m s) =
           s\<lparr>hvac_mode_lookup := Some (fst (available_hvac_modes s))\<rparr>"
proof -
  obtain t s1 where a: "available_hvac_modes s = (t, s1)"
    by (cases "available_hvac_modes s")
  have s1: "s1 = s\<lparr>hvac_mode_lookup := Some t\<rparr>"
    using available_hvac_modes_frame [of s] a by simp
  have r: "async_set_hvac_mode m s =
             (Inl (ValueError (''Invalid hvac_mode ['' @ HVACMode_value m @ '']'')), s1)"
    using assms a by (simp add: async_set_hvac_mode_def)
  show ?thesis using r s1 a by simp
qed

theorem set_hvac_mode_invalid_witness:
  "DRY \<noteq> OFF \<and>
   dict_get (dict_invert (fst (available_hvac_modes
     (LGEACClimate_init ac_cool_heat status_off [])))) DRY = None \<and>
   fst (async_set_hvac_mode DRY (LGEACClimate_init ac_cool_heat status_off [])) =
     Inl (ValueError ''Invalid hvac_mode [dry]'') \<and>
   commands (snd (async_set_hvac_mode DRY (LGEACClimate_init ac_cool_heat status_off []))) = []"
proof -
  have h1: "DRY \<noteq> OFF" by simp
  have h2: "dict_get (dict_invert (fst (available_hvac_modes
              (LGEACClimate_init ac_cool_heat status_off [])))) DRY = None"
    by (simp add: LGEACClimate_init_def Let_def available_hvac_modes_def derive_hvac_modes_def
          ac_cool_heat_def HVAC_MODE_LOOKUP_def dict_invert_def dict_get_def)
  have c: "commands (LGEACClimate_init ac_cool_heat status_off []) = []"
    by (simp add: LGEACClimate_init_def Let_def)
  show ?thesis
    using set_hvac_mode_invalid [OF h1 h2] h2 c by simp
qed

text \<open>
  Claim C3. Round trip. Let the reverse lookup of the derived HVAC table resolve a mode
  other than OFF to a vendor code, and let the device accept its commands. Then
  \<^verbatim>\<open>async_set_hvac_mode\<close> returns normally, having issued a power-on if the device was off
  and then the set-operating-mode command for the code (none for the sentinel code). If
  the snapshot afterwards shows the device on with the operating mode that was issued, or,
  in the sentinel case where none was issued, with any operating mode, then \<^verbatim>\<open>hvac_mode\<close>
  returns the mode that was set.
\<close>

theorem set_hvac_mode_round_trip:
  assumes "cache_inv s"
    and "m \<noteq> OFF"
    and "dict_get (dict_invert (fst (available_hvac_modes s))) m = Some code"
    and "True \<notin> set (faults s)"
    and "is_on snap"
    and "if code = HVAC_MODE_NONE then operation_mode snap \<noteq> None
         else operation_mode snap = Some code"
  shows "fst (async_set_hvac_mode m s) = Inr () \<and>
         commands (snd (async_set_hvac_mode m s)) =
           commands s @ (if is_on (api_state s) then [] else [Power True]) @
             (if code = HVAC_MODE_NONE then [] else [SetOpMode code]) \<and>
         fst (hvac_mode ((snd (async_set_hvac_mode m s))\<lparr>api_state := snap\<rparr>)) = Inr m"
proof -
  let ?S = "op_modes (device s)"
  let ?H = "derive_hvac_modes ?S"
  let ?pw = "if is_on (api_state s) then [] else [Power True]"
  let ?op = "if code = HVAC_MODE_NONE then [] else [SetOpMode code]"
  obtain t s1 where a: "available_hvac_modes s = (t, s1)"
    by (cases "available_hvac_modes s")
  have t: "t = ?H"
    using fst_available_hvac_modes [OF assms(1)] a by simp
  have s1: "s1 = s\<lparr>hvac_mode_lookup := Some ?H\<rparr>"
    using snd_available_hvac_modes [OF assms(1)] a by simp
  have k1: "keeps s s1"
    using keeps_available_hvac_modes [of s] a by simp
  have entry: "(code, m) \<in> set ?H"
    using assms(3) a t dict_get_invert [of ?H m code] by simp
  \<comment> \<open>power on if off\<close>
  obtain r2 s2 where p: "power_on_if_off s1 = (r2, s2)"
    by (cases "power_on_if_off s1")
  have f1: "True \<notin> set (faults s1)" using assms(4) s1 by simp
  have p_ok: "r2 = Inr () \<and> commands s2 = commands s @ ?pw \<and> True \<notin> set (faults s2)"
    using p f1 s1 device_call_ok [OF f1, of "Power True"]
    by (auto simp: power_on_if_off_def split: if_splits)
  have k2: "keeps s s2"
    using k1 keeps_power_on_if_off [of s1] p by (auto intro: keeps_trans)
  \<comment> \<open>set the operating mode unless it is the sentinel\<close>
  let ?g = "if code \<noteq> HVAC_MODE_NONE then device_call (SetOpMode code) s2 else (Inr (), s2)"
  obtain r3 s3 where g: "?g = (r3, s3)"
    by (cases ?g)
  have f2: "True \<notin> set (faults s2)" using p_ok by simp
  have g_ok: "r3 = Inr () \<and> commands s3 = commands s2 @ ?op"
    using g device_call_ok [OF f2, of "SetOpMode code"] by (auto split: if_splits)
  have k3: "keeps s s3"
  proof -
    have "keeps s2 (snd ?g)" by (simp add: keeps_device_call keeps_refl)
    then have "keeps s2 s3" using g by simp
    with k2 show ?thesis by (rule keeps_trans)
  qed
  have res: "async_set_hvac_mode m s = (Inr (), async_set_updated s3)"
  proof -
    have "dict_get (dict_invert t) m = Some code"
      using assms(3) a by simp
    then show ?thesis
      using assms(2) a p p_ok g g_ok
      by (simp add: async_set_hvac_mode_def split: if_splits)
  qed
  let ?s5 = "(async_set_updated s3)\<lparr>api_state := snap\<rparr>"
  have k5: "keeps s ?s5"
  proof -
    have "keeps s3 (async_set_updated s3)" by (rule keeps_async_set_updated)
    moreover have "keeps (async_set_updated s3) ?s5"
      by (auto simp: keeps_def static_def cache_inv_def split: option.splits)
    ultimately show ?thesis using k3 by (blast intro: keeps_trans)
  qed
  have c5: "cache_inv ?s5" using k5 assms(1) by (rule keeps_cache_inv)
  have d5: "device ?s5 = device s" using k5 by (rule keeps_device)
  have on5: "is_on (api_state ?s5)" using assms(5) by simp
  have read: "fst (hvac_mode ?s5) = Inr m"
  proof (cases "code = HVAC_MODE_NONE")
    case True
    then have H: "?H = [(HVAC_MODE_NONE, AUTO)]"
      using entry derive_hvac_modes_sentinel by blast
    then have m: "m = AUTO" using entry by simp
    obtain c where c: "operation_mode snap = Some c"
      using assms(6) True by auto
    have "fst (available_preset_modes ?s5) = []"
      using c5 H d5 by (simp add: preset_table_sentinel)
    then have np: "\<not> dict_has (fst (available_preset_modes ?s5)) c"
      by (simp add: dict_has_def)
    have "fst (hvac_mode ?s5) =
            Inr (case dict_get (derive_hvac_modes (op_modes (device ?s5))) c of
                   Some m \<Rightarrow> m | None \<Rightarrow> AUTO)"
      using c5 on5 _ np by (rule hvac_mode_plain) (simp add: c)
    then show ?thesis
      unfolding d5 H m by (simp add: dict_get_def)
  next
    case False
    then have c: "operation_mode snap = Some code"
      using assms(6) by simp
    have "code \<in> set (map fst HVAC_MODE_LOOKUP)"
      using entry False by (rule derive_hvac_modes_known)
    then have "code \<notin> set (map fst PRESET_MODE_LOOKUP)"
      by (rule tables_disjoint)
    then have np: "\<not> dict_has (fst (available_preset_modes ?s5)) code"
      using preset_keys_known [OF c5] by (auto simp: dict_has_def)
    have "fst (hvac_mode ?s5) =
            Inr (case dict_get (derive_hvac_modes (op_modes (device ?s5))) code of
                   Some m \<Rightarrow> m | None \<Rightarrow> AUTO)"
      using c5 on5 _ np by (rule hvac_mode_plain) (simp add: c)
    then show ?thesis
      unfolding d5 by (simp add: derive_hvac_modes_entry [OF entry])
  qed
  have cmds: "commands (async_set_updated s3) = commands s @ ?pw @ ?op"
    using p_ok g_ok by (simp add: async_set_updated_def)
  show ?thesis
    unfolding res using read cmds by simp
qed

theorem set_hvac_mode_round_trip_witness:
  "cache_inv (LGEACClimate_init ac_cool_heat status_off []) \<and>
   dict_get (dict_invert (fst (available_hvac_modes
     (LGEACClimate_init ac_cool_heat status_off [])))) HEAT = Some ''HEAT'' \<and>
   is_on status_heat \<and> operation_mode status_heat = Some ''HEAT'' \<and>
   fst (async_set_hvac_mode HEAT (LGEACClimate_init ac_cool_heat status_off [])) = Inr () \<and>
   commands (snd (async_set_hvac_mode HEAT (LGEACClimate_init ac_cool_heat status_off []))) =
     [Power True, SetOpMode ''HEAT''] \<and>
   fst (hvac_mode ((snd (async_set_hvac_mode HEAT
     (LGEACClimate_init ac_cool_heat status_off [])))\<lparr>api_state := status_heat\<rparr>)) = Inr HEAT \<and>
   cache_inv (LGEACClimate_init ac_fan_only status_off []) \<and>
   dict_get (dict_invert (fst (available_hvac_modes
     (LGEACClimate_init ac_fan_only status_off [])))) AUTO = Some ''--'' \<and>
   is_on status_fan \<and> operation_mode status_fan = Some ''FAN'' \<and>
   fst (async_set_hvac_mode AUTO (LGEACClimate_init ac_fan_only status_off [])) = Inr () \<and>
   commands (snd (async_set_hvac_mode AUTO (LGEACClimate_init ac_fan_only status_off []))) =
     [Power True] \<and>
   fst (hvac_mode ((snd (async_set_hvac_mode AUTO
     (LGEACClimate_init ac_fan_only status_off [])))\<lparr>api_state := status_fan\<rparr>)) = Inr AUTO"
proof -
  let ?s = "LGEACClimate_init ac_cool_heat status_off []"
  let ?u = "LGEACClimate_init ac_fan_only status_off []"
  have i: "cache_inv ?s" and j: "cache_inv ?u"
    by (rule cache_inv_init)+
  have ne: "HEAT \<noteq> OFF" and ne': "AUTO \<noteq> OFF"
    by simp_all
  have r: "dict_get (dict_invert (fst (available_hvac_modes ?s))) HEAT = Some ''HEAT''"
    by (simp add: LGEACClimate_init_def Let_def available_hvac_modes_def derive_hvac_modes_def
          ac_cool_heat_def HVAC_MODE_LOOKUP_def dict_invert_def dict_get_def)
  have r': "dict_get (dict_invert (fst (available_hvac_modes ?u))) AUTO = Some ''--''"
    by (simp add: LGEACClimate_init_def Let_def available_hvac_modes_def derive_hvac_modes_def
          ac_fan_only_def HVAC_MODE_LOOKUP_def HVAC_MODE_NONE_def dict_invert_def dict_get_def)
  have f: "True \<notin> set (faults ?s)" and f': "True \<notin> set (faults ?u)"
    by (simp_all add: LGEACClimate_init_def Let_def)
  have on: "is_on status_heat" and on': "is_on status_fan"
    by (simp_all add: status_heat_def status_fan_def)
  have op: "operation_mode status_heat = Some ''HEAT''"
    and op': "operation_mode status_fan = Some ''FAN''"
    by (simp_all add: status_heat_def status_fan_def)
  have sn: "if ''HEAT'' = HVAC_MODE_NONE then operation_mode status_heat \<noteq> None
            else operation_mode status_heat = Some ''HEAT''"
    by (simp add: op HVAC_MODE_NONE_def)
  have sn': "if ''--'' = HVAC_MODE_NONE then operation_mode status_fan \<noteq> None
             else operation_mode status_fan = Some ''--''"
    by (simp add: op' HVAC_MODE_NONE_def)
  have st: "api_state ?s = status_off" and st': "api_state ?u = status_off"
    and c: "commands ?s = []" and c': "commands ?u = []"
    by (simp_all add: LGEACClimate_init_def Let_def)
  have off: "\<not> is_on status_off"
    by (simp add: status_off_def)
  have a: "fst (async_set_hvac_mode HEAT ?s) = Inr () \<and>
           commands (snd (async_set_hvac_mode HEAT ?s)) = [Power True, SetOpMode ''HEAT''] \<and>
           fst (hvac_mode ((snd (async_set_hvac_mode HEAT ?s))\<lparr>api_state := status_heat\<rparr>)) =
             Inr HEAT"
    using set_hvac_mode_round_trip [OF i ne r f on sn]
    by (simp only: st c off HVAC_MODE_NONE_def) simp
  have b: "fst (async_set_hvac_mode AUTO ?u) = Inr () \<and>
           commands (snd (async_set_hvac_mode AUTO ?u)) = [Power True] \<and>
           fst (hvac_mode ((snd (async_set_hvac_mode AUTO ?u))\<lparr>api_state := status_fan\<rparr>)) =
             Inr AUTO"
    using set_hvac_mode_round_trip [OF j ne' r' f' on' sn']
    by (simp only: st' c' off HVAC_MODE_NONE_def) simp
  show ?thesis
    using i j r r' on on' op op' a b by blast
qed

section \<open>Swing modes\<close>

text \<open>
  Claim C7. For a value of the adapter's swing-mode list that equals the current swing mode
  read from the snapshot, \<^verbatim>\<open>async_set_swing_mode\<close> returns normally and leaves the adapter
  as it was: no device command is issued and the coordinator is not marked updated. The
  same holds for \<^verbatim>\<open>async_set_swing_horizontal_mode\<close> with the horizontal list and mode.
\<close>

theorem set_swing_mode_idempotent:
  "(v \<in> set (or_empty (swing_modes s)) \<and> swing_mode s = Some v \<longrightarrow>
      async_set_swing_mode v s = (Inr (), s) \<and>
      commands (snd (async_set_swing_mode v s)) = commands s \<and>
      updated (snd (async_set_swing_mode v s)) = updated s) \<and>
   (v \<in> set (or_empty (swing_horizontal_modes s)) \<and> swing_horizontal_mode s = Some v \<longrightarrow>
      async_set_swing_horizontal_mode v s = (Inr (), s) \<and>
      commands (snd (async_set_swing_horizontal_mode v s)) = commands s \<and>
      updated (snd (async_set_swing_horizontal_mode v s)) = updated s)"
  by (simp add: async_set_swing_mode_def async_set_swing_horizontal_mode_def)

theorem set_swing_mode_idempotent_witness:
  "''UP'' \<in> set (or_empty (swing_modes (LGEACClimate_init ac_two_savers status_heat []))) \<and>
   swing_mode (LGEACClimate_init ac_two_savers status_heat []) = Some ''UP'' \<and>
   commands (snd (async_set_swing_mode ''UP''
     (LGEACClimate_init ac_two_savers status_heat []))) = [] \<and>
   updated (snd (async_set_swing_mode ''UP''
     (LGEACClimate_init ac_two_savers status_heat []))) = 0 \<and>
   ''LEFT'' \<in> set (or_empty (swing_horizontal_modes
     (LGEACClimate_init ac_two_savers status_heat []))) \<and>
   swing_horizontal_mode (LGEACClimate_init ac_two_savers status_heat []) = Some ''LEFT'' \<and>
   commands (snd (async_set_swing_horizontal_mode ''LEFT''
     (LGEACClimate_init ac_two_savers status_heat []))) = [] \<and>
   updated (snd (async_set_swing_horizontal_mode ''LEFT''
     (LGEACClimate_init ac_two_savers status_heat []))) = 0"
proof -
  let ?s = "LGEACClimate_init ac_two_savers status_heat []"
  have v1: "''UP'' \<in> set (or_empty (swing_modes ?s))"
    by (simp add: LGEACClimate_init_def Let_def swing_modes_def or_empty_def or_None_def
          ac_two_savers_def)
  have v2: "swing_mode ?s = Some ''UP''"
    by (simp add: LGEACClimate_init_def Let_def swing_mode_def or_None_def
          ac_two_savers_def status_heat_def)
  have h1: "''LEFT'' \<in> set (or_empty (swing_horizontal_modes ?s))"
    by (simp add: LGEACClimate_init_def Let_def swing_horizontal_modes_def or_empty_def
          or_None_def ac_two_savers_def)
  have h2: "swing_horizontal_mode ?s = Some ''LEFT''"
    by (simp add: LGEACClimate_init_def Let_def swing_horizontal_mode_def status_heat_def)
  have c: "commands ?s = []" and u: "updated ?s = 0"
    by (simp_all add: LGEACClimate_init_def Let_def)
  have r1: "async_set_swing_mode ''UP'' ?s = (Inr (), ?s)"
    using set_swing_mode_idempotent [of "''UP''" ?s] v1 v2 by blast
  have r2: "async_set_swing_horizontal_mode ''LEFT'' ?s = (Inr (), ?s)"
    using set_swing_mode_idempotent [of "''LEFT''" ?s] h1 h2 by blast
  show ?thesis
    using v1 v2 h1 h2 by (simp only: r1 r2 snd_conv c u simp_thms)
qed

text \<open>
  Claim C9. For an adapter of a device with a non-empty list of horizontal swing modes
  and an empty list of vertical ones, in every state the adapter can reach:
  \<^verbatim>\<open>swing_modes\<close> is the horizontal list, \<^verbatim>\<open>swing_horizontal_modes\<close> is None, and
  \<^verbatim>\<open>swing_mode\<close> reads the horizontal swing state of the snapshot.
\<close>

theorem horizontal_only_swing_remap:
  assumes "reachable s"
    and "horizontal_swing_modes (device s) \<noteq> []"
    and "vertical_swing_modes (device s) = []"
  shows "swing_modes s = Some (horizontal_swing_modes (device s)) \<and>
         swing_horizontal_modes s = None \<and>
         swing_mode s = horizontal_swing_mode (api_state s)"
proof -
  have "swing_inv s"
    using assms(1) by (simp add: reachable_inv)
  then have "use_h_mode s \<and>
             attr_swing_modes s = Some (horizontal_swing_modes (device s)) \<and>
             attr_swing_horizontal_modes s = None"
    using assms(2,3)
    by (simp add: swing_inv_def static_def LGEACClimate_init_def Let_def or_None_def)
  then show ?thesis
    by (simp add: swing_modes_def swing_horizontal_modes_def swing_mode_def)
qed

theorem horizontal_only_swing_remap_witness:
  "reachable (LGEACClimate_init ac_cool_heat status_heat []) \<and>
   horizontal_swing_modes (device (LGEACClimate_init ac_cool_heat status_heat [])) \<noteq> [] \<and>
   vertical_swing_modes (device (LGEACClimate_init ac_cool_heat status_heat [])) = [] \<and>
   swing_modes (LGEACClimate_init ac_cool_heat status_heat []) = Some [''LEFT'', ''RIGHT''] \<and>
   swing_horizontal_modes (LGEACClimate_init ac_cool_heat status_heat []) = None \<and>
   swing_mode (LGEACClimate_init ac_cool_heat status_heat []) = Some ''LEFT''"
proof -
  let ?s = "LGEACClimate_init ac_cool_heat status_heat []"
  have r: "reachable ?s"
    by (rule r_init)
  have d: "device ?s = ac_cool_heat" and a: "api_state ?s = status_heat"
    by (simp_all add: LGEACClimate_init_def Let_def)
  have h: "horizontal_swing_modes (device ?s) \<noteq> []"
    unfolding d by (simp add: ac_cool_heat_def)
  have v: "vertical_swing_modes (device ?s) = []"
    unfolding d by (simp add: ac_cool_heat_def)
  have "swing_modes ?s = Some (horizontal_swing_modes (device ?s)) \<and>
        swing_horizontal_modes ?s = None \<and>
        swing_mode ?s = horizontal_swing_mode (api_state ?s)"
    using horizontal_only_swing_remap [OF r h v] .
  then have "swing_modes ?s = Some [''LEFT'', ''RIGHT''] \<and>
             swing_horizontal_modes ?s = None \<and> swing_mode ?s = Some ''LEFT''"
    unfolding d a by (simp add: ac_cool_heat_def status_heat_def)
  then show ?thesis
    using r h v by blast
qed

section \<open>Presets\<close>

text \<open>
  Claim C10. When the derived preset table of the adapter is empty, \<^verbatim>\<open>async_set_preset_mode\<close>
  raises NotImplementedError for every label, also for the label of no preset, with no
  device command issued and the coordinator not marked updated; and the \<^verbatim>\<open>preset_modes\<close>
  property is None, not an empty list.
\<close>

theorem set_preset_mode_unsupported:
  assumes "fst (available_preset_modes s) = []"
  shows "fst (async_set_preset_mode label s) = Inl NotImplementedError \<and>
         commands (snd (async_set_preset_mode label s)) = commands s \<and>
         updated (snd (async_set_preset_mode label s)) = updated s \<and>
         fst (preset_modes s) = None"
proof -
  obtain p s1 where a: "available_preset_modes s = (p, s1)"
    by (cases "available_preset_modes s")
  have p: "p = []" using assms a by simp
  have f: "commands s1 = commands s \<and> updated s1 = updated s"
    using available_preset_modes_frame [of s] a by simp
  have r: "async_set_preset_mode label s = (Inl NotImplementedError, s1)"
    using a p by (simp add: async_set_preset_mode_def)
  have q: "preset_modes s = (None, s1)"
    using a p by (simp add: preset_modes_def)
  show ?thesis using r q f by simp
qed

theorem set_preset_mode_unsupported_witness:
  "fst (available_preset_modes (LGEACClimate_init ac_fan_only status_heat [])) = [] \<and>
   fst (async_set_preset_mode ''none'' (LGEACClimate_init ac_fan_only status_heat [])) =
     Inl NotImplementedError \<and>
   commands (snd (async_set_preset_mode ''none''
     (LGEACClimate_init ac_fan_only status_heat []))) = [] \<and>
   updated (snd (async_set_preset_mode ''none''
     (LGEACClimate_init ac_fan_only status_heat []))) = 0 \<and>
   fst (preset_modes (LGEACClimate_init ac_fan_only status_heat [])) = None"
proof -
  let ?s = "LGEACClimate_init ac_fan_only status_heat []"
  have h: "fst (available_preset_modes ?s) = []"
    by (simp add: LGEACClimate_init_def Let_def available_preset_modes_def
          available_hvac_modes_def derive_hvac_modes_def ac_fan_only_def HVAC_MODE_LOOKUP_def
          PRESET_MODE_LOOKUP_def dict_values_def dict_invert_def)
  have c: "commands ?s = []" and u: "updated ?s = 0"
    by (simp_all add: LGEACClimate_init_def Let_def)
  show ?thesis
    using set_preset_mode_unsupported [OF h, of "''none''"] h by (simp only: c u simp_thms)
qed

section \<open>Reading the HVAC mode of a device that is off\<close>

text \<open>
  Claim C4, as the source has it. When the snapshot reports the device off, or reports no
  operating mode, \<^verbatim>\<open>hvac_mode\<close> returns OFF and changes nothing but the active preset
  attribute: a prior value that is set (a non-empty label) is reset to the label of no
  preset, and a prior value of None (or an empty label) stays as it is.
\<close>

theorem hvac_mode_off:
  assumes "\<not> is_on (api_state s) \<or> operation_mode (api_state s) = None"
  shows "fst (hvac_mode s) = Inr OFF \<and>
         attr_preset_mode (snd (hvac_mode s)) =
           (if truthy (attr_preset_mode s) then Some PRESET_NONE else attr_preset_mode s) \<and>
         snd (hvac_mode s) = reset_preset s"
  using assms by (auto simp: hvac_mode_def reset_preset_def split: option.splits)

theorem hvac_mode_off_witness:
  "\<not> is_on (api_state saver_then_off) \<and>
   attr_preset_mode saver_then_off = Some ''eco'' \<and>
   fst (hvac_mode saver_then_off) = Inr OFF \<and>
   attr_preset_mode (snd (hvac_mode saver_then_off)) = Some ''none''"
proof -
  have off: "\<not> is_on (api_state saver_then_off)"
    by (simp add: saver_then_off_def status_off_def)
  then have h: "\<not> is_on (api_state saver_then_off) \<or>
                operation_mode (api_state saver_then_off) = None"
    by simp
  have a: "fst (hvac_mode saver_then_off) = Inr OFF"
    using hvac_mode_off [OF h] by (rule conjunct1)
  have b: "attr_preset_mode (snd (hvac_mode saver_then_off)) = Some ''none''"
    using hvac_mode_off [OF h, THEN conjunct2, THEN conjunct1]
    by (simp add: saver_then_off_preset PRESET_NONE_def)
  show ?thesis
    using off saver_then_off_preset a b by blast
qed

text \<open>
  The claim as it was stated, with the reset happening whatever the prior value, fails on
  an adapter whose active preset attribute is still None: the device is off, the property
  returns OFF, and the attribute is None afterwards.
\<close>

theorem hvac_mode_off_keeps_unset_preset:
  "\<not> is_on (api_state (LGEACClimate_init ac_fan_only status_off [])) \<and>
   attr_preset_mode (LGEACClimate_init ac_fan_only status_off []) = None \<and>
   fst (hvac_mode (LGEACClimate_init ac_fan_only status_off [])) = Inr OFF \<and>
   attr_preset_mode (snd (hvac_mode (LGEACClimate_init ac_fan_only status_off []))) = None \<and>
   attr_preset_mode (snd (hvac_mode (LGEACClimate_init ac_fan_only status_off []))) \<noteq>
     Some PRESET_NONE"
  by (simp add: LGEACClimate_init_def Let_def hvac_mode_def reset_preset_def status_off_def)

section \<open>The target temperature of a refrigerator compartment\<close>

text \<open>
  Claim C8, as the source has it. \<^verbatim>\<open>target_temperature\<close> returns the accessor's value
  converted by \<^verbatim>\<open>int()\<close>: a float truncated towards zero, an integer unchanged, any other
  value as \<^verbatim>\<open>int()\<close> converts it. It returns the unknown value, and raises nothing, when
  the accessor yields None or a value whose conversion raises ValueError. An exception
  raised by the accessor itself propagates to the caller.
\<close>

theorem target_temperature_cases:
  assumes "temp_fn (entity_description r) (wrap_device r) = out"
  shows "(\<forall>x. out = Inr (PyFloat x) \<longrightarrow> target_temperature r = Inr (Some (py_trunc x))) \<and>
         (\<forall>n. out = Inr (PyInt n) \<longrightarrow> target_temperature r = Inr (Some n)) \<and>
         (\<forall>v n. out = Inr v \<and> v \<noteq> PyNone \<and> py_int v = Inr n \<longrightarrow>
            target_temperature r = Inr (Some n)) \<and>
         (out = Inr PyNone \<longrightarrow> target_temperature r = Inr None) \<and>
         (\<forall>v msg. out = Inr v \<and> py_int v = Inl (ValueError msg) \<longrightarrow>
            target_temperature r = Inr None) \<and>
         (\<forall>e. out = Inl e \<longrightarrow> target_temperature r = Inl e)"
  using assms by (auto simp: target_temperature_def)

theorem target_temperature_cases_witness:
  "target_temperature (fridge_device (Inr (PyFloat (37 / 10)))) = Inr (Some 3) \<and>
   target_temperature (fridge_device (Inr (PyFloat (- 37 / 10)))) = Inr (Some (- 3)) \<and>
   target_temperature (fridge_device (Inr (PyInt 4))) = Inr (Some 4) \<and>
   target_temperature (fridge_device (Inr (PyStr '' 5 ''))) = Inr (Some 5) \<and>
   target_temperature (fridge_device (Inr PyNone)) = Inr None \<and>
   target_temperature (fridge_device (Inr (PyStr ''abc''))) = Inr None \<and>
   target_temperature (fridge_device (Inr (PyStr ''3.5''))) = Inr None \<and>
   target_temperature (fridge_device (Inr PyNaN)) = Inr None \<and>
   target_temperature (fridge_device (Inl (DeviceError ''read failed''))) =
     Inl (DeviceError ''read failed'')"
proof -
  note t = target_temperature_cases [OF fridge_device_accessor]
  have p1: "py_trunc (37 / 10) = 3" and p2: "py_trunc (- 37 / 10) = - 3"
    by (simp_all add: py_trunc_def)
  have s1: "py_int (PyStr '' 5 '') = Inr 5"
    by (simp add: int_of_str_def strip_def is_space_def digit_val_def)
  have s2: "py_int (PyStr ''abc'') =
              Inl (ValueError ''invalid literal for int() with base 10: abc'')"
    by (simp add: int_of_str_def strip_def is_space_def digit_val_def)
  have s3: "py_int (PyStr ''3.5'') =
              Inl (ValueError ''invalid literal for int() with base 10: 3.5'')"
    by (simp add: int_of_str_def strip_def is_space_def digit_val_def)
  have s4: "py_int PyNaN = Inl (ValueError ''cannot convert float NaN to integer'')"
    by simp
  have "target_temperature (fridge_device (Inr (PyFloat (37 / 10)))) = Inr (Some 3)"
    using t [of "Inr (PyFloat (37 / 10))"] p1 by simp
  moreover have "target_temperature (fridge_device (Inr (PyFloat (- 37 / 10)))) =
                   Inr (Some (- 3))"
    using t [of "Inr (PyFloat (- 37 / 10))"] p2 by simp
  moreover have "target_temperature (fridge_device (Inr (PyInt 4))) = Inr (Some 4)"
    using t [of "Inr (PyInt 4)"] by simp
  moreover have "target_temperature (fridge_device (Inr (PyStr '' 5 ''))) = Inr (Some 5)"
    using t [of "Inr (PyStr '' 5 '')"] s1 by simp
  moreover have "target_temperature (fridge_device (Inr PyNone)) = Inr None"
    using t [of "Inr PyNone"] by simp
  moreover have "target_temperature (fridge_device (Inr (PyStr ''abc''))) = Inr None"
    using t [of "Inr (PyStr ''abc'')"] s2 by simp
  moreover have "target_temperature (fridge_device (Inr (PyStr ''3.5''))) = Inr None"
    using t [of "Inr (PyStr ''3.5'')"] s3 by simp
  moreover have "target_temperature (fridge_device (Inr PyNaN)) = Inr None"
    using t [of "Inr PyNaN"] s4 by simp
  moreover have "target_temperature (fridge_device (Inl (DeviceError ''read failed''))) =
                   Inl (DeviceError ''read failed'')"
    using t [of "Inl (DeviceError ''read failed'')"] by simp
  ultimately show ?thesis by blast
qed

text \<open>
  The claim as it was stated, with a raising accessor giving the unknown value, fails:
  the accessor is called outside the \<^verbatim>\<open>try\<close>, so its exception is what the property
  raises.
\<close>

theorem target_temperature_accessor_raises:
  "temp_fn (entity_description (fridge_device (Inl (DeviceError ''read failed''))))
     (wrap_device (fridge_device (Inl (DeviceError ''read failed'')))) =
     Inl (DeviceError ''read failed'') \<and>
   target_temperature (fridge_device (Inl (DeviceError ''read failed''))) =
     Inl (DeviceError ''read failed'') \<and>
   target_temperature (fridge_device (Inl (DeviceError ''read failed''))) \<noteq> Inr None"
  by (simp add: fridge_device_def REFRIGERATOR_CLIMATE_def target_temperature_def)

end
